theory Spec2Isabelle
  imports Complex_Main "HOL-Library.Sublist"
begin

section \<open>Data model\<close>

text \<open>
  A detection is the dictionary built by \<open>ObjectDetector.detect\<close>: keys \<open>class\<close>,
  \<open>confidence\<close>, \<open>bbox\<close>, \<open>distance\<close>, \<open>position\<close>, and, once
  \<open>filter_relevant\<close> has kept it, \<open>priority\<close>. The key \<open>class\<close> is the field
  \<open>det_class\<close> here; a missing \<open>priority\<close> key is \<open>None\<close>. Distances and times
  are Python floats; they are modelled as reals (every threshold of the code, 1.0, 1.5,
  2.0, 3.0, 4.0, 5.0, is a float exactly, so the comparisons agree). Strings are lists
  of code points; every literal of the source lies below U+0100.
\<close>

type_synonym bbox_t = "real \<times> real \<times> real \<times> real"

record detection =
  det_class :: string
  confidence :: real
  bbox :: bbox_t
  distance :: real
  position :: string
  priority :: "string option"

text \<open>\<open>YOLOConfig\<close> of app/config.py, the field the filter reads.\<close>

record YOLOConfig =
  priority_classes :: "string list"

definition default_YOLOConfig :: YOLOConfig where
  "default_YOLOConfig = \<lparr> priority_classes =
     [''person'', ''car'', ''bus'', ''truck'', ''bicycle'', ''motorcycle'',
      ''chair'', ''bench'', ''door'', ''stairs''] \<rparr>"

section \<open>Relevance filter (core/object\_detector.py)\<close>

text \<open>
  The loop of \<open>ObjectDetector.filter_relevant\<close>. The source writes
  \<open>det['priority']\<close> into the dictionary it is looking at, which is the very object
  held by the caller's list, and appends that object to \<open>relevant\<close>. The state of the
  loop is therefore a pair: the detections visited so far as the call leaves them, and
  \<open>relevant\<close>. The second rule is the source's nested \<open>if\<close>: a priority class at
  5.0 m or more falls through to the third rule.
\<close>

fun filter_relevant_loop ::
  "YOLOConfig \<Rightarrow> detection list \<Rightarrow> detection list \<times> detection list
     \<Rightarrow> detection list \<times> detection list" where
  "filter_relevant_loop cfg [] (seen, relevant) = (seen, relevant)"
| "filter_relevant_loop cfg (det # rest) (seen, relevant) =
     (if distance det < 2.0 then
        (let det' = det\<lparr>priority := Some ''alta''\<rparr>
         in filter_relevant_loop cfg rest (seen @ [det'], relevant @ [det']))
      else if det_class det \<in> set (priority_classes cfg) \<and> distance det < 5.0 then
        (let det' = det\<lparr>priority := Some ''media''\<rparr>
         in filter_relevant_loop cfg rest (seen @ [det'], relevant @ [det']))
      else if position det = ''frente'' \<and> distance det < 4.0 then
        (let det' = det\<lparr>priority := Some ''media''\<rparr>
         in filter_relevant_loop cfg rest (seen @ [det'], relevant @ [det']))
      else filter_relevant_loop cfg rest (seen @ [det], relevant))"

text \<open>The caller's list after the call, and the returned list \<open>relevant[:5]\<close>.\<close>

definition detections_after :: "YOLOConfig \<Rightarrow> detection list \<Rightarrow> detection list" where
  "detections_after cfg detections = fst (filter_relevant_loop cfg detections ([], []))"

definition filter_relevant :: "YOLOConfig \<Rightarrow> detection list \<Rightarrow> detection list" where
  "filter_relevant cfg detections =
     take 5 (snd (filter_relevant_loop cfg detections ([], [])))"

text \<open>
  The policy in the words of the specification: the priority given by the first rule
  that matches, or \<open>None\<close> when the detection is discarded.
\<close>

definition relevance_rule :: "YOLOConfig \<Rightarrow> detection \<Rightarrow> string option" where
  "relevance_rule cfg d =
     (if distance d < 2 then Some ''alta''
      else if det_class d \<in> set (priority_classes cfg) \<and> distance d < 5 then Some ''media''
      else if position d = ''frente'' \<and> distance d < 4 then Some ''media''
      else None)"

definition mark :: "YOLOConfig \<Rightarrow> detection \<Rightarrow> detection" where
  "mark cfg d = (case relevance_rule cfg d of None \<Rightarrow> d | Some p \<Rightarrow> d\<lparr>priority := Some p\<rparr>)"

definition kept :: "YOLOConfig \<Rightarrow> detection \<Rightarrow> bool" where
  "kept cfg d = (relevance_rule cfg d \<noteq> None)"

definition filter_relevant_spec :: "YOLOConfig \<Rightarrow> detection list \<Rightarrow> detection list" where
  "filter_relevant_spec cfg ds = take 5 (map (mark cfg) (filter (kept cfg) ds))"

section \<open>Proximity alerts (core/audio\_feedback.py)\<close>

text \<open>
  \<open>ProximityAlertSystem.__init__\<close> sets \<open>alert_distances\<close> (a dictionary with the
  three literal keys below) and \<open>alert_cooldown\<close> once; nothing in the repository
  assigns them again, so they are constants here. The mutable part of the object is
  \<open>last_alert_time\<close>, a dictionary from class name to the time of the last alert.
\<close>

record alert_distances_t =
  critical :: real
  warning :: real
  info :: real

definition alert_distances :: alert_distances_t where
  "alert_distances = \<lparr> critical = 1.0, warning = 2.0, info = 4.0 \<rparr>"

definition alert_cooldown :: real where
  "alert_cooldown = 3.0"

record ProximityAlertSystem =
  last_alert_time :: "string \<rightharpoonup> real"

definition ProximityAlertSystem_init :: ProximityAlertSystem where
  "ProximityAlertSystem_init = \<lparr> last_alert_time = Map.empty \<rparr>"

text \<open>
  The alert level computed at the top of the loop body of \<open>check_proximity\<close>:
  \<open>None\<close>, \<open>'critical'\<close> or \<open>'warning'\<close>.
\<close>

definition alert_level_of :: "detection \<Rightarrow> string option" where
  "alert_level_of det =
     (if distance det < critical alert_distances then Some ''critical''
      else if distance det < warning alert_distances then Some ''warning''
      else None)"

text \<open>
  What \<open>_emit_alert\<close> asks of the audio object: the calls to \<open>play_alert\<close>,
  \<open>vibrate\<close> and \<open>speak\<close>, in order.
\<close>

datatype audio_action =
  Play_alert string
| Vibrate string
| Speak string string bool

definition emit_alert :: "detection \<Rightarrow> string \<Rightarrow> audio_action list" where
  "emit_alert det level =
     (if level = ''critical'' then
        [Play_alert ''danger'', Vibrate ''double'',
         Speak (''Cuidado, '' @ det_class det @ '' muy cerca'') ''alta'' True]
      else if level = ''warning'' then
        [Play_alert ''warning'', Vibrate ''single'']
      else [])"

text \<open>
  An emitted alert is recorded with the time of the call (\<open>time.time()\<close>, read once at
  the start of \<open>check_proximity\<close>), the detection and the level. The loop carries the
  dictionary and the alerts emitted so far.
\<close>

record alert =
  alert_time :: real
  alert_det :: detection
  alert_level :: string

fun check_proximity_loop ::
  "real \<Rightarrow> detection list \<Rightarrow> (string \<rightharpoonup> real) \<times> alert list
     \<Rightarrow> (string \<rightharpoonup> real) \<times> alert list" where
  "check_proximity_loop current_time [] (lat, emitted) = (lat, emitted)"
| "check_proximity_loop current_time (det # rest) (lat, emitted) =
     (let obj_class = det_class det in
      case alert_level_of det of
        None \<Rightarrow> check_proximity_loop current_time rest (lat, emitted)
      | Some level \<Rightarrow>
          (let last_time = (case lat obj_class of None \<Rightarrow> 0 | Some t \<Rightarrow> t) in
           if current_time - last_time < alert_cooldown
           then check_proximity_loop current_time rest (lat, emitted)
           else check_proximity_loop current_time rest
                  (lat(obj_class \<mapsto> current_time),
                   emitted @ [\<lparr> alert_time = current_time, alert_det = det,
                                alert_level = level \<rparr>])))"

definition check_proximity ::
  "real \<Rightarrow> detection list \<Rightarrow> ProximityAlertSystem \<Rightarrow> ProximityAlertSystem \<times> alert list" where
  "check_proximity current_time detections s =
     (let (lat, emitted) = check_proximity_loop current_time detections (last_alert_time s, [])
      in (s\<lparr>last_alert_time := lat\<rparr>, emitted))"

definition audio_actions :: "alert list \<Rightarrow> audio_action list" where
  "audio_actions emitted = concat (map (\<lambda>a. emit_alert (alert_det a) (alert_level a)) emitted)"

text \<open>
  A sequence of calls, each with the clock value it reads and its detections; the result
  is the final object and every alert emitted, in order.
\<close>

fun check_proximity_calls ::
  "(real \<times> detection list) list \<Rightarrow> ProximityAlertSystem \<times> alert list
     \<Rightarrow> ProximityAlertSystem \<times> alert list" where
  "check_proximity_calls [] (s, trace) = (s, trace)"
| "check_proximity_calls ((current_time, detections) # calls) (s, trace) =
     (let (s', emitted) = check_proximity current_time detections s
      in check_proximity_calls calls (s', trace @ emitted))"

definition alerts_of_calls :: "(real \<times> detection list) list \<Rightarrow> alert list" where
  "alerts_of_calls calls = snd (check_proximity_calls calls (ProximityAlertSystem_init, []))"

section \<open>Descriptions (core/language\_processor.py)\<close>

text \<open>
  \<open>_translate_class\<close>: a dictionary lookup with the class name itself as default. The
  accented letters are the code points U+00F3, U+00FA, U+00E9 and U+00E1.
\<close>

definition class_translations :: "(string \<times> string) list" where
  "class_translations =
     [(''person'', ''persona''),
      (''car'', ''auto''),
      (''truck'', ''cami'' @ [char_of (0xF3::nat)] @ ''n''),
      (''bicycle'', ''bicicleta''),
      (''motorcycle'', ''motocicleta''),
      (''bus'', ''autob'' @ [char_of (0xFA::nat)] @ ''s''),
      (''chair'', ''silla''),
      (''door'', ''puerta''),
      (''stairs'', ''escaleras''),
      (''bench'', ''banco''),
      (''bottle'', ''botella''),
      (''cup'', ''taza''),
      (''fork'', ''tenedor''),
      (''knife'', ''cuchillo''),
      (''cell phone'', ''tel'' @ [char_of (0xE9::nat)] @ ''fono''),
      (''laptop'', ''computadora''),
      (''dog'', ''perro''),
      (''cat'', ''gato''),
      (''tree'', [char_of (0xE1::nat)] @ ''rbol'')]"

definition translate_class :: "string \<Rightarrow> string" where
  "translate_class class_name =
     (case map_of class_translations class_name of None \<Rightarrow> class_name | Some t \<Rightarrow> t)"

text \<open>
  \<open>_fallback_description\<close>. The word for the distance is the local \<open>urgencia\<close>
  (the source's local \<open>dist\<close> is \<open>d\<close> here); the two results are the f-strings \<open>"{obj_es} {urgencia} frente a ti"\<close> and
  \<open>"{obj_es} {urgencia} a tu {pos}"\<close>.
\<close>

definition urgencia :: "real \<Rightarrow> string" where
  "urgencia d =
     (if d < 1.5 then ''muy cerca''
      else if d < 3 then ''cerca''
      else [])"

definition fallback_description :: "detection list \<Rightarrow> string" where
  "fallback_description detections =
     (case detections of
        [] \<Rightarrow> ''Camino despejado''
      | obj # _ \<Rightarrow>
          (let obj_es = translate_class (det_class obj);
               d = distance obj;
               pos = position obj
           in if pos = ''frente''
              then obj_es @ '' '' @ urgencia d @ '' frente a ti''
              else obj_es @ '' '' @ urgencia d @ '' a tu '' @ pos))"

text \<open>
  \<open>str.strip()\<close> removes the characters for which \<open>str.isspace\<close> holds from both
  ends; below U+0100 these are U+0009 to U+000D, U+001C to U+0020, U+0085 and U+00A0.
  \<open>_clean_description\<close> deletes \<open>*\<close> and \<open>#\<close>, strips, and cuts a text of more than
  200 characters to its first 200, up to the last full stop of those (the whole 200
  when there is none), with a full stop appended.
\<close>

definition isspace :: "char \<Rightarrow> bool" where
  "isspace c = (let n = (of_char c :: nat)
                in (9 \<le> n \<and> n \<le> 13) \<or> (28 \<le> n \<and> n \<le> 32) \<or> n = 133 \<or> n = 160)"

definition strip :: "string \<Rightarrow> string" where
  "strip text = rev (dropWhile isspace (rev (dropWhile isspace text)))"

definition rsplit_dot_first :: "string \<Rightarrow> string" where
  "rsplit_dot_first text =
     (if CHR ''.'' \<in> set text
      then rev (tl (dropWhile (\<lambda>c. c \<noteq> CHR ''.'') (rev text)))
      else text)"

definition clean_description :: "string \<Rightarrow> string" where
  "clean_description text0 =
     (let text1 = filter (\<lambda>c. c \<noteq> CHR ''*'') text0;
          text2 = filter (\<lambda>c. c \<noteq> CHR ''#'') text1;
          text3 = strip text2
      in if length text3 > 200 then rsplit_dot_first (take 200 text3) @ ''.'' else text3)"

text \<open>
  The call \<open>requests.post\<close> to the description service is an external collaborator:
  what comes back is a parameter of the model. It either raises \<open>requests.Timeout\<close>,
  raises something else, or returns a response with a status code and a body;
  \<open>response.json()\<close> either raises or gives a dictionary, whose \<open>response\<close> entry (if
  it has one) is the text. The prompt built by \<open>_build_context\<close> and \<open>_build_prompt\<close>
  is only sent to the service, so it does not appear.
\<close>

datatype json_result =
  Json_error
| Json "string option"

datatype post_result =
  Timeout
| Other_exception
| Response int json_result

definition generate_description :: "post_result \<Rightarrow> detection list \<Rightarrow> string" where
  "generate_description post detections =
     (if detections = [] then ''Camino despejado''
      else case post of
        Response status_code body \<Rightarrow>
          (if status_code = 200 then
             (case body of
                Json result \<Rightarrow>
                  clean_description (strip (case result of None \<Rightarrow> [] | Some r \<Rightarrow> r))
              | Json_error \<Rightarrow> fallback_description detections)
           else fallback_description detections)
      | Timeout \<Rightarrow> fallback_description detections
      | Other_exception \<Rightarrow> fallback_description detections)"

text \<open>
  The outcomes of the external call that count as a failure: it raised, it timed out,
  or the status is not 200.
\<close>

definition call_failed :: "post_result \<Rightarrow> bool" where
  "call_failed post =
     (case post of
        Timeout \<Rightarrow> True
      | Other_exception \<Rightarrow> True
      | Response status_code body \<Rightarrow> status_code \<noteq> 200)"

text \<open>
  \<open>AdaptiveLanguageProcessor\<close>: the object holds \<open>last_description_time\<close>;
  \<open>danger_threshold\<close> is set once in \<open>__init__\<close>. The minimum interval is read from
  the global configuration at each call, so it is a parameter. The result \<open>None\<close> is
  Python's \<open>None\<close>: no description for this call.
\<close>

record PerformanceConfig =
  min_time_between_descriptions :: real

definition default_PerformanceConfig :: PerformanceConfig where
  "default_PerformanceConfig = \<lparr> min_time_between_descriptions = 2.0 \<rparr>"

record AdaptiveLanguageProcessor =
  last_description_time :: real

definition AdaptiveLanguageProcessor_init :: AdaptiveLanguageProcessor where
  "AdaptiveLanguageProcessor_init = \<lparr> last_description_time = 0 \<rparr>"

definition danger_threshold :: real where
  "danger_threshold = 2.0"

definition adaptive_generate_description ::
  "PerformanceConfig \<Rightarrow> real \<Rightarrow> post_result \<Rightarrow> detection list
     \<Rightarrow> AdaptiveLanguageProcessor \<Rightarrow> string option \<times> AdaptiveLanguageProcessor" where
  "adaptive_generate_description cfg current_time post detections s =
     (let has_danger = list_ex (\<lambda>d. distance d < danger_threshold) detections in
      if has_danger then
        (Some (generate_description post detections),
         s\<lparr>last_description_time := current_time\<rparr>)
      else
        (let min_interval = min_time_between_descriptions cfg in
         if current_time - last_description_time s < min_interval then (None, s)
         else (Some (generate_description post detections),
               s\<lparr>last_description_time := current_time\<rparr>)))"

section \<open>Power modes (utils/battery\_optimizer.py)\<close>

datatype PowerMode = PERFORMANCE | BALANCED | POWER_SAVER | ULTRA_SAVER

record PowerProfile =
  name :: string
  fps_processing :: int
  yolo_resolution :: "int \<times> int"
  description_interval :: real
  use_half_precision :: bool
  ollama_enabled :: bool
  ollama_model :: "string option"

fun POWER_PROFILES :: "PowerMode \<Rightarrow> PowerProfile" where
  "POWER_PROFILES PERFORMANCE =
     \<lparr> name = ''Alto Rendimiento'', fps_processing = 10, yolo_resolution = (640, 480),
       description_interval = 1.0, use_half_precision = True, ollama_enabled = True,
       ollama_model = Some ''llama3.2:1b'' \<rparr>"
| "POWER_PROFILES BALANCED =
     \<lparr> name = ''Balanceado'', fps_processing = 5, yolo_resolution = (416, 416),
       description_interval = 2.0, use_half_precision = True, ollama_enabled = True,
       ollama_model = Some ''llama3.2:1b'' \<rparr>"
| "POWER_PROFILES POWER_SAVER =
     \<lparr> name = ''Ahorro de Bater'' @ [char_of (0xED::nat)] @ ''a'', fps_processing = 3,
       yolo_resolution = (320, 320), description_interval = 3.0,
       use_half_precision = True, ollama_enabled = False, ollama_model = None \<rparr>"
| "POWER_PROFILES ULTRA_SAVER =
     \<lparr> name = ''Ahorro Extremo'', fps_processing = 1, yolo_resolution = (224, 224),
       description_interval = 5.0, use_half_precision = True, ollama_enabled = False,
       ollama_model = None \<rparr>"

text \<open>
  The dictionary \<open>thresholds\<close> has four literal keys and is set once in
  \<open>__init__\<close>. The object's mutable fields used by \<open>update_battery_status\<close> are
  \<open>current_mode\<close>, \<open>battery_level\<close> and \<open>is_charging\<close>; the level is a Python
  integer. \<open>_switch_mode\<close> assigns the mode when it differs (and prints).
\<close>

record thresholds_t =
  ultra_saver :: int
  power_saver :: int
  balanced :: int
  performance :: int

definition thresholds :: thresholds_t where
  "thresholds = \<lparr> ultra_saver = 10, power_saver = 20, balanced = 50, performance = 80 \<rparr>"

record BatteryOptimizer =
  current_mode :: PowerMode
  battery_level :: int
  is_charging :: bool

definition BatteryOptimizer_init :: BatteryOptimizer where
  "BatteryOptimizer_init =
     \<lparr> current_mode = BALANCED, battery_level = 100, is_charging = False \<rparr>"

definition switch_mode :: "PowerMode \<Rightarrow> BatteryOptimizer \<Rightarrow> BatteryOptimizer" where
  "switch_mode new_mode s =
     (if new_mode \<noteq> current_mode s then s\<lparr>current_mode := new_mode\<rparr> else s)"

definition update_battery_status :: "int \<Rightarrow> bool \<Rightarrow> BatteryOptimizer \<Rightarrow> BatteryOptimizer" where
  "update_battery_status level charging s0 =
     (let s = s0\<lparr>battery_level := level, is_charging := charging\<rparr> in
      if charging then switch_mode PERFORMANCE s
      else if level \<le> ultra_saver thresholds then switch_mode ULTRA_SAVER s
      else if level \<le> power_saver thresholds then switch_mode POWER_SAVER s
      else if level \<le> balanced thresholds then switch_mode BALANCED s
      else switch_mode PERFORMANCE s)"

definition get_current_profile :: "BatteryOptimizer \<Rightarrow> PowerProfile" where
  "get_current_profile s = POWER_PROFILES (current_mode s)"

text \<open>
  The table \<open>consumption\<close> of \<open>estimate_battery_life\<close> (mAh per hour): the measure of
  how much power a mode draws.
\<close>

fun consumption :: "PowerMode \<Rightarrow> int" where
  "consumption PERFORMANCE = 800"
| "consumption BALANCED = 500"
| "consumption POWER_SAVER = 300"
| "consumption ULTRA_SAVER = 150"

text \<open>The selection in the words of the specification.\<close>

definition mode_for :: "int \<Rightarrow> bool \<Rightarrow> PowerMode" where
  "mode_for level charging =
     (if charging then PERFORMANCE
      else if level \<le> 10 then ULTRA_SAVER
      else if 10 < level \<and> level \<le> 20 then POWER_SAVER
      else if 20 < level \<and> level \<le> 50 then BALANCED
      else PERFORMANCE)"

section \<open>Frame queue (core/camera\_handler.py)\<close>

text \<open>
  \<open>frame_queue\<close> is a \<open>queue.Queue(maxsize=config.camera.frame_buffer_size)\<close> of
  Python's standard library: \<open>full()\<close> is \<open>0 < maxsize <= qsize()\<close> (a queue whose
  \<open>maxsize\<close> is zero or negative has no bound), \<open>put\<close> appends at the end and blocks
  while the queue is full, \<open>get\<close> removes the head and blocks while the queue is empty.
  A call that would block is \<open>None\<close>.
\<close>

record CameraConfig =
  frame_buffer_size :: int

definition default_CameraConfig :: CameraConfig where
  "default_CameraConfig = \<lparr> frame_buffer_size = 10 \<rparr>"

record 'f Queue =
  maxsize :: int
  items :: "'f list"

definition Queue_init :: "int \<Rightarrow> 'f Queue" where
  "Queue_init n = \<lparr> maxsize = n, items = [] \<rparr>"

definition Queue_full :: "'f Queue \<Rightarrow> bool" where
  "Queue_full q = (0 < maxsize q \<and> maxsize q \<le> int (length (items q)))"

definition Queue_empty :: "'f Queue \<Rightarrow> bool" where
  "Queue_empty q = (items q = [])"

definition Queue_put :: "'f \<Rightarrow> 'f Queue \<Rightarrow> 'f Queue option" where
  "Queue_put x q = (if Queue_full q then None else Some (q\<lparr>items := items q @ [x]\<rparr>))"

definition Queue_get :: "'f Queue \<Rightarrow> ('f \<times> 'f Queue) option" where
  "Queue_get q = (case items q of [] \<Rightarrow> None | x # rest \<Rightarrow> Some (x, q\<lparr>items := rest\<rparr>))"

text \<open>
  The capture thread and the consumer share the queue. In \<open>_capture_loop\<close> the test
  \<open>if not self.frame_queue.full()\<close> and the call \<open>self.frame_queue.put(processed_frame)\<close>
  are two separate operations on the queue, and the consumer may run between them; so
  the handler's state has, beside the queue, the frame that the capture thread has
  tested for and not yet put (\<open>pending\<close>). \<open>_preprocess_frame\<close> returns its argument.
\<close>

record 'f CameraHandler =
  frame_queue :: "'f Queue"
  pending :: "'f option"

definition CameraHandler_init :: "CameraConfig \<Rightarrow> 'f CameraHandler" where
  "CameraHandler_init cfg =
     \<lparr> frame_queue = Queue_init (frame_buffer_size cfg), pending = None \<rparr>"

text \<open>
  \<open>CameraHandler.read\<close>: \<open>None\<close> on an empty queue, the head otherwise. There is one
  consumer, so nothing can empty the queue between its test and its \<open>get\<close>.
\<close>

definition read :: "'f CameraHandler \<Rightarrow> 'f option \<times> 'f CameraHandler" where
  "read s =
     (if Queue_empty (frame_queue s) then (None, s)
      else case Queue_get (frame_queue s) of
             None \<Rightarrow> (None, s)
           | Some (x, q) \<Rightarrow> (Some x, s\<lparr>frame_queue := q\<rparr>))"

text \<open>
  The operations on the queue, as they may interleave: the capture thread tests for
  room with a frame in hand (\<open>Capture_check\<close>; a frame for which there is no room is
  dropped), the capture thread puts the frame it tested for (\<open>Capture_put\<close>), the
  consumer reads (\<open>Consumer_read\<close>). An operation that the thread in question cannot
  make in the state (a test while a put is outstanding, a put with nothing tested, a put
  that would block) leaves the state as it is.
\<close>

datatype 'f event =
  Capture_check 'f
| Capture_put
| Consumer_read

fun step :: "'f event \<Rightarrow> 'f CameraHandler \<Rightarrow> 'f CameraHandler" where
  "step (Capture_check frame) s =
     (case pending s of
        Some _ \<Rightarrow> s
      | None \<Rightarrow> if \<not> Queue_full (frame_queue s) then s\<lparr>pending := Some frame\<rparr> else s)"
| "step Capture_put s =
     (case pending s of
        None \<Rightarrow> s
      | Some frame \<Rightarrow>
          (case Queue_put frame (frame_queue s) of
             None \<Rightarrow> s
           | Some q \<Rightarrow> s\<lparr>frame_queue := q, pending := None\<rparr>))"
| "step Consumer_read s = snd (read s)"

fun run :: "'f event list \<Rightarrow> 'f CameraHandler \<Rightarrow> 'f CameraHandler" where
  "run [] s = s"
| "run (e # es) s = run es (step e s)"

text \<open>One pass of the capture loop's enqueue with no consumer in between.\<close>

definition capture_frame :: "'f \<Rightarrow> 'f CameraHandler \<Rightarrow> 'f CameraHandler" where
  "capture_frame frame s = step Capture_put (step (Capture_check frame) s)"

section \<open>Distance estimate (utils/distance\_estimator.py)\<close>

text \<open>
  \<open>estimate_distance(bbox, frame_shape)\<close> with \<open>bbox = [x1, y1, x2, y2]\<close> and
  \<open>frame_shape = (height, width, channels)\<close>. The one operation that can fail is the
  division by \<open>frame_width\<close>. In \<open>ObjectDetector.detect\<close> the box is a numpy array, and
  a numpy float divided by zero is an infinity or a NaN, not an exception: a positive
  size gives \<open>inf\<close>, which is above 0.5; otherwise every comparison is false. With
  plain Python numbers the division raises \<open>ZeroDivisionError\<close>. The flag
  \<open>numpy_box\<close> says which kind of box is passed.
\<close>

datatype py_error = ZeroDivisionError

fun estimate_distance :: "bool \<Rightarrow> bbox_t \<Rightarrow> nat \<times> nat \<times> nat \<Rightarrow> py_error + real" where
  "estimate_distance numpy_box (x1, y1, x2, y2) (height, width, channels) =
     (let pixel_width = x2 - x1;
          pixel_height = y2 - y1;
          pixel_size = max pixel_width pixel_height;
          frame_width = real width
      in if frame_width = 0 then
           (if numpy_box then (if pixel_size > 0 then Inr 1.0 else Inr 6.0)
            else Inl ZeroDivisionError)
         else
           (let size_ratio = pixel_size / frame_width
            in if size_ratio > 0.5 then Inr 1.0
               else if size_ratio > 0.3 then Inr 1.5
               else if size_ratio > 0.2 then Inr 2.5
               else if size_ratio > 0.1 then Inr 4.0
               else Inr 6.0))"

section \<open>Example inputs\<close>

definition example_det :: "string \<Rightarrow> real \<Rightarrow> string \<Rightarrow> detection" where
  "example_det c d p =
     \<lparr> det_class = c, confidence = 0.9, bbox = (100, 50, 300, 400), distance = d,
       position = p, priority = None \<rparr>"

definition crowd :: "detection list" where
  "crowd = map (\<lambda>c. example_det c 1.0 ''izquierda'')
             [''person'', ''car'', ''bus'', ''truck'', ''chair'', ''dog'']"

definition street :: "detection list" where
  "street =
     [example_det ''dog'' 1.0 ''derecha'',
      example_det ''laptop'' 2.5 ''izquierda'',
      example_det ''cup'' 3.5 ''frente'',
      example_det ''person'' 4.5 ''izquierda'',
      example_det ''car'' 5.5 ''frente'']"

definition example_calls :: "(real \<times> detection list) list" where
  "example_calls =
     [(100, [example_det ''person'' 0.5 ''frente'', example_det ''person'' 1.5 ''derecha'']),
      (101, [example_det ''person'' 0.5 ''frente'', example_det ''dog'' 1.5 ''derecha'']),
      (103, [example_det ''person'' 0.8 ''frente'', example_det ''car'' 3.0 ''frente''])]"

section \<open>Properties of the relevance filter\<close>

lemma filter_relevant_loop_eq:
  "filter_relevant_loop cfg ds (seen, relevant) =
     (seen @ map (mark cfg) ds, relevant @ map (mark cfg) (filter (kept cfg) ds))"
proof (induction ds arbitrary: seen relevant)
  case Nil
  show ?case by simp
next
  case (Cons d ds)
  show ?case
    by (simp add: Cons.IH mark_def kept_def relevance_rule_def Let_def)
qed

lemma detections_after_eq: "detections_after cfg ds = map (mark cfg) ds"
  by (simp add: detections_after_def filter_relevant_loop_eq)

lemma filter_relevant_eq:
  "filter_relevant cfg ds = take 5 (map (mark cfg) (filter (kept cfg) ds))"
  by (simp add: filter_relevant_def filter_relevant_loop_eq)

text \<open>
  Claim C1. \<open>filter_relevant\<close> decides each detection by the first matching rule
  (distance below 2.0: kept, priority \<open>alta\<close>; priority class and distance below 5.0:
  kept, \<open>media\<close>; position \<open>frente\<close> and distance below 4.0: kept, \<open>media\<close>;
  otherwise discarded), and returns the kept detections in input order, cut to the
  first five. The priority classes of the default configuration are the ten of
  app/config.py.
\<close>

theorem C1_filter_relevant_policy:
  "filter_relevant cfg ds = filter_relevant_spec cfg ds
   \<and> priority_classes default_YOLOConfig =
       [''person'', ''car'', ''bus'', ''truck'', ''bicycle'', ''motorcycle'',
        ''chair'', ''bench'', ''door'', ''stairs'']"
  by (simp add: filter_relevant_eq filter_relevant_spec_def default_YOLOConfig_def)

text \<open>The three kept detections of the example, with the priorities the rules give.\<close>

theorem C1_witness:
  "filter_relevant default_YOLOConfig street = filter_relevant_spec default_YOLOConfig street
   \<and> map (\<lambda>d. (det_class d, priority d)) (filter_relevant default_YOLOConfig street) =
       [(''dog'', Some ''alta''), (''cup'', Some ''media''), (''person'', Some ''media'')]"
proof -
  have "map (\<lambda>d. (det_class d, priority d)) (filter_relevant default_YOLOConfig street) =
       [(''dog'', Some ''alta''), (''cup'', Some ''media''), (''person'', Some ''media'')]"
    by (simp add: filter_relevant_def street_def example_det_def default_YOLOConfig_def Let_def)
  then show ?thesis
    using C1_filter_relevant_policy [of default_YOLOConfig street] by simp
qed

lemma kept_near: "distance d < 2 \<Longrightarrow> kept cfg d"
  by (simp add: kept_def relevance_rule_def)

lemma mark_near: "distance d < 2 \<Longrightarrow> mark cfg d = d\<lparr>priority := Some ''alta''\<rparr>"
  by (simp add: mark_def relevance_rule_def)

lemma distance_mark: "distance (mark cfg d) = distance d"
  by (simp add: mark_def split: option.splits)

lemma filter_split_at:
  assumes "i < length ds" and "P (ds ! i)"
  shows "filter P ds = filter P (take i ds) @ ds ! i # filter P (drop (Suc i) ds)"
proof -
  have "ds = take i ds @ ds ! i # drop (Suc i) ds"
    using assms(1) by (rule id_take_nth_drop)
  then have "filter P ds = filter P (take i ds @ ds ! i # drop (Suc i) ds)"
    by simp
  then show ?thesis using assms(2) by simp
qed

lemma kept_position:
  assumes "i < length ds" and "kept cfg (ds ! i)"
    and "length (filter (kept cfg) (take i ds)) < 5"
  shows "filter_relevant cfg ds ! length (filter (kept cfg) (take i ds)) = mark cfg (ds ! i)"
    and "length (filter (kept cfg) (take i ds)) < length (filter_relevant cfg ds)"
proof -
  let ?k = "length (filter (kept cfg) (take i ds))"
  let ?ys = "map (mark cfg) (filter (kept cfg) ds)"
  have split: "?ys = map (mark cfg) (filter (kept cfg) (take i ds))
                 @ mark cfg (ds ! i) # map (mark cfg) (filter (kept cfg) (drop (Suc i) ds))"
    using filter_split_at [OF assms(1), of "kept cfg"] assms(2) by simp
  have len: "?k < length ?ys"
    by (subst split) simp
  have nth: "?ys ! ?k = mark cfg (ds ! i)"
    by (subst split) (simp add: nth_append)
  show "filter_relevant cfg ds ! ?k = mark cfg (ds ! i)"
    using assms(3) nth by (simp add: filter_relevant_eq)
  show "?k < length (filter_relevant cfg ds)"
    using assms(3) len by (simp add: filter_relevant_eq)
qed

text \<open>
  Claim C2, as amended. A detection nearer than 2.0 m is in the output of
  \<open>filter_relevant\<close>, with priority \<open>alta\<close>, whenever fewer than five kept detections
  come before it in the input; its class and position play no part. (As stated,
  for every input, the claim fails: the output is cut to five entries.)
\<close>

theorem C2_near_detection_kept_within_five:
  assumes "i < length ds" and "distance (ds ! i) < 2"
    and "length (filter (kept cfg) (take i ds)) < 5"
  shows "(ds ! i)\<lparr>priority := Some ''alta''\<rparr> \<in> set (filter_relevant cfg ds)"
proof -
  let ?k = "length (filter (kept cfg) (take i ds))"
  have k: "kept cfg (ds ! i)" using assms(2) by (rule kept_near)
  have "filter_relevant cfg ds ! ?k = mark cfg (ds ! i)"
    and "?k < length (filter_relevant cfg ds)"
    using kept_position [OF assms(1) k assms(3)] by simp_all
  then have "mark cfg (ds ! i) \<in> set (filter_relevant cfg ds)"
    by (metis nth_mem)
  then show ?thesis using assms(2) by (simp add: mark_near)
qed

text \<open>The fifth of six near detections is kept.\<close>

theorem C2_witness:
  "(4::nat) < length crowd \<and> distance (crowd ! 4) < 2
   \<and> length (filter (kept default_YOLOConfig) (take 4 crowd)) < 5
   \<and> (crowd ! 4)\<lparr>priority := Some ''alta''\<rparr> \<in> set (filter_relevant default_YOLOConfig crowd)"
proof -
  have a: "(4::nat) < length crowd" by (simp add: crowd_def)
  have b: "distance (crowd ! 4) < 2" by (simp add: crowd_def example_det_def)
  have c: "length (filter (kept default_YOLOConfig) (take 4 crowd)) < 5"
    by (simp add: crowd_def example_det_def kept_def relevance_rule_def)
  show ?thesis
    using a b c C2_near_detection_kept_within_five [OF a b c] by simp
qed

text \<open>
  Six detections at 1.0 m: the sixth, a dog, is nearer than 2.0 m and is not in the
  output, neither as it was passed nor with its priority set.
\<close>

theorem C2_counterexample:
  "crowd ! 5 \<in> set crowd \<and> distance (crowd ! 5) < 2.0
   \<and> crowd ! 5 \<notin> set (filter_relevant default_YOLOConfig crowd)
   \<and> (crowd ! 5)\<lparr>priority := Some ''alta''\<rparr> \<notin> set (filter_relevant default_YOLOConfig crowd)
   \<and> map det_class (filter_relevant default_YOLOConfig crowd) =
       [''person'', ''car'', ''bus'', ''truck'', ''chair'']"
  by (simp add: filter_relevant_def crowd_def example_det_def Let_def)

lemma sorted_filter_relevant:
  assumes "sorted_wrt (\<lambda>a b. distance a \<le> distance b) ds"
  shows "sorted_wrt (\<lambda>a b. distance a \<le> distance b) (filter_relevant cfg ds)"
proof -
  have "sorted_wrt (\<lambda>a b. distance a \<le> distance b) (filter (kept cfg) ds)"
    using assms by (rule sorted_wrt_filter)
  then have "sorted_wrt (\<lambda>a b. distance a \<le> distance b) (map (mark cfg) (filter (kept cfg) ds))"
    by (simp add: sorted_wrt_map distance_mark)
  then show ?thesis
    unfolding filter_relevant_eq by (rule sorted_wrt_take)
qed

lemma subseq_take_self: "subseq (take n xs) xs"
  by (rule prefix_imp_subseq) (rule take_is_prefix)

lemma subseq_filter_relevant_after:
  "subseq (filter_relevant cfg ds) (detections_after cfg ds)"
proof -
  have "subseq (map (mark cfg) (filter (kept cfg) ds)) (map (mark cfg) ds)"
    by (rule subseq_map) (rule subseq_filter_left)
  moreover have "subseq (take 5 (map (mark cfg) (filter (kept cfg) ds)))
                   (map (mark cfg) (filter (kept cfg) ds))"
    by (rule subseq_take_self)
  ultimately show ?thesis
    unfolding filter_relevant_eq detections_after_eq by (rule subseq_order.trans [rotated])
qed

lemma emb_marked_filter:
  "list_emb (\<lambda>out inp. \<exists>p. out = inp\<lparr>priority := Some p\<rparr>)
     (map (mark cfg) (filter (kept cfg) ds)) ds"
proof (induction ds)
  case Nil
  show ?case by simp
next
  case (Cons d ds)
  show ?case
  proof (cases "kept cfg d")
    case True
    then obtain p where "relevance_rule cfg d = Some p"
      by (auto simp: kept_def)
    then have "mark cfg d = d\<lparr>priority := Some p\<rparr>"
      by (simp add: mark_def)
    then show ?thesis using True Cons.IH by auto
  next
    case False
    have "list_emb (\<lambda>out inp. \<exists>p. out = inp\<lparr>priority := Some p\<rparr>)
            (map (mark cfg) (filter (kept cfg) ds)) (d # ds)"
      using Cons.IH by (rule list_emb_Cons)
    then show ?thesis using False by simp
  qed
qed

lemma emb_filter_relevant:
  "list_emb (\<lambda>out inp. \<exists>p. out = inp\<lparr>priority := Some p\<rparr>) (filter_relevant cfg ds) ds"
proof -
  let ?ys = "map (mark cfg) (filter (kept cfg) ds)"
  have "list_emb (\<lambda>out inp. \<exists>p. out = inp\<lparr>priority := Some p\<rparr>) (take 5 ?ys @ drop 5 ?ys) ds"
    using emb_marked_filter [of cfg ds] by simp
  then obtain us vs where "ds = us @ vs"
    and "list_emb (\<lambda>out inp. \<exists>p. out = inp\<lparr>priority := Some p\<rparr>) (take 5 ?ys) us"
    using list_emb_appendD by blast
  then show ?thesis
    unfolding filter_relevant_eq by (simp add: list_emb_prefix)
qed

text \<open>
  Claim C3. The output of \<open>filter_relevant\<close> has at most five entries; and if the input
  is sorted by ascending distance, the output is a subsequence of the input (of the
  caller's list as the call leaves it, entry for entry; and of the list as it was
  passed, each output entry being an input entry with its priority set) and is itself
  in ascending order of distance.
\<close>

theorem C3_at_most_five_in_order:
  "length (filter_relevant cfg ds) \<le> 5
   \<and> (sorted_wrt (\<lambda>a b. distance a \<le> distance b) ds \<longrightarrow>
        subseq (filter_relevant cfg ds) (detections_after cfg ds)
        \<and> list_emb (\<lambda>out inp. \<exists>p. out = inp\<lparr>priority := Some p\<rparr>) (filter_relevant cfg ds) ds
        \<and> sorted_wrt (\<lambda>a b. distance a \<le> distance b) (filter_relevant cfg ds))"
  using sorted_filter_relevant [of ds cfg] subseq_filter_relevant_after [of cfg ds]
    emb_filter_relevant [of cfg ds]
  by (simp add: filter_relevant_eq)

text \<open>A sorted input of five detections, of which three are kept.\<close>

theorem C3_witness:
  "sorted_wrt (\<lambda>a b. distance a \<le> distance b) street
   \<and> length (filter_relevant default_YOLOConfig street) \<le> 5
   \<and> subseq (filter_relevant default_YOLOConfig street) (detections_after default_YOLOConfig street)
   \<and> sorted_wrt (\<lambda>a b. distance a \<le> distance b) (filter_relevant default_YOLOConfig street)
   \<and> map det_class (filter_relevant default_YOLOConfig street) = [''dog'', ''cup'', ''person'']"
proof -
  have s: "sorted_wrt (\<lambda>a b. distance a \<le> distance b) street"
    by (simp add: street_def example_det_def)
  have m: "map det_class (filter_relevant default_YOLOConfig street) = [''dog'', ''cup'', ''person'']"
    by (simp add: filter_relevant_def street_def example_det_def default_YOLOConfig_def Let_def)
  show ?thesis
    using s m C3_at_most_five_in_order [of default_YOLOConfig street] by simp
qed

section \<open>Properties of the proximity alerts\<close>

lemma alert_level_of_cases:
  "(alert_level_of det = Some ''critical'' \<longleftrightarrow> distance det < 1)
   \<and> (alert_level_of det = Some ''warning'' \<longleftrightarrow> 1 \<le> distance det \<and> distance det < 2)
   \<and> (alert_level_of det = None \<longleftrightarrow> 2 \<le> distance det)"
  by (simp add: alert_level_of_def alert_distances_def)

lemma check_proximity_loop_levels:
  assumes "\<forall>a \<in> set emitted. alert_level_of (alert_det a) = Some (alert_level a)"
  shows "\<forall>a \<in> set (snd (check_proximity_loop now ds (lat, emitted))).
           alert_level_of (alert_det a) = Some (alert_level a)"
  using assms
proof (induction ds arbitrary: lat emitted)
  case Nil
  then show ?case by simp
next
  case (Cons d ds)
  show ?case
  proof (cases "alert_level_of d")
    case None
    then show ?thesis using Cons.IH [OF Cons.prems] by simp
  next
    case (Some level)
    let ?new = "\<lparr> alert_time = now, alert_det = d, alert_level = level \<rparr>"
    have "\<forall>a \<in> set (emitted @ [?new]). alert_level_of (alert_det a) = Some (alert_level a)"
      using Cons.prems Some by simp
    then have "\<forall>a \<in> set (snd (check_proximity_loop now ds
                   (lat(det_class d \<mapsto> now), emitted @ [?new]))).
                 alert_level_of (alert_det a) = Some (alert_level a)"
      by (rule Cons.IH)
    then show ?thesis using Some Cons.IH [OF Cons.prems, of lat] by (simp add: Let_def)
  qed
qed

lemma check_proximity_levels:
  "\<forall>a \<in> set (snd (check_proximity now ds s)).
     alert_level_of (alert_det a) = Some (alert_level a)"
  using check_proximity_loop_levels [of "[]" now ds "last_alert_time s"]
  by (simp add: check_proximity_def split: prod.splits)

text \<open>
  Claim C4. The alert level of a detection depends on its distance alone: it is
  \<open>critical\<close> exactly when the distance is below 1.0 m, \<open>warning\<close> exactly when it is at
  least 1.0 m and below 2.0 m, and there is no alert otherwise; every alert that
  \<open>check_proximity\<close> emits carries this level. A detection at 0.8 m is \<open>critical\<close>,
  one at 1.5 m is \<open>warning\<close>, one at 3.0 m gives no alert.
\<close>

theorem C4_alert_level_by_distance:
  "(alert_level_of det = Some ''critical'' \<longleftrightarrow> distance det < 1.0)
   \<and> (alert_level_of det = Some ''warning'' \<longleftrightarrow> 1.0 \<le> distance det \<and> distance det < 2.0)
   \<and> (alert_level_of det = None \<longleftrightarrow> 2.0 \<le> distance det)
   \<and> (distance det = distance det' \<longrightarrow> alert_level_of det = alert_level_of det')
   \<and> (\<forall>a \<in> set (snd (check_proximity now ds s)).
         alert_level_of (alert_det a) = Some (alert_level a))
   \<and> alert_level_of (example_det c 0.8 p) = Some ''critical''
   \<and> alert_level_of (example_det c 1.5 p) = Some ''warning''
   \<and> alert_level_of (example_det c 3.0 p) = None"
  using check_proximity_levels [of now ds s]
  by (simp add: alert_level_of_def alert_distances_def example_det_def)

text \<open>Two detections of different class and position at 1.5 m, and one call.\<close>

theorem C4_witness:
  "distance (example_det ''person'' 1.5 ''frente'') = distance (example_det ''dog'' 1.5 ''derecha'')
   \<and> alert_level_of (example_det ''person'' 1.5 ''frente'')
       = alert_level_of (example_det ''dog'' 1.5 ''derecha'')
   \<and> alert_level_of (example_det ''dog'' 1.5 ''derecha'') = Some ''warning''
   \<and> map alert_level (snd (check_proximity 100
          [example_det ''person'' 0.8 ''frente'', example_det ''dog'' 1.5 ''derecha'',
           example_det ''car'' 3.0 ''frente''] ProximityAlertSystem_init))
       = [''critical'', ''warning'']"
proof -
  have d: "distance (example_det ''person'' 1.5 ''frente'')
             = distance (example_det ''dog'' 1.5 ''derecha'')"
    by (simp add: example_det_def)
  have e: "alert_level_of (example_det ''person'' 1.5 ''frente'')
             = alert_level_of (example_det ''dog'' 1.5 ''derecha'')"
    and w: "alert_level_of (example_det ''dog'' 1.5 ''derecha'') = Some ''warning''"
    using d C4_alert_level_by_distance [of "example_det ''person'' 1.5 ''frente''"
        "example_det ''dog'' 1.5 ''derecha''" 0 "[]" ProximityAlertSystem_init
        "''dog''" "''derecha''"]
    by blast+
  have m: "map alert_level (snd (check_proximity 100
          [example_det ''person'' 0.8 ''frente'', example_det ''dog'' 1.5 ''derecha'',
           example_det ''car'' 3.0 ''frente''] ProximityAlertSystem_init))
       = [''critical'', ''warning'']"
    by (simp add: check_proximity_def ProximityAlertSystem_init_def alert_level_of_def
        alert_distances_def alert_cooldown_def example_det_def Let_def)
  show ?thesis using d e w m by blast
qed

section \<open>The cooldown of the proximity alerts\<close>

text \<open>
  The alerts already emitted play no part in what the loop does next.
\<close>

lemma check_proximity_loop_append:
  "check_proximity_loop now ds (lat, tr @ emitted) =
     (fst (check_proximity_loop now ds (lat, emitted)),
      tr @ snd (check_proximity_loop now ds (lat, emitted)))"
proof (induction ds arbitrary: lat emitted)
  case Nil
  show ?case by simp
next
  case (Cons d ds)
  show ?case
  proof (cases "alert_level_of d")
    case None
    then show ?thesis by (simp add: Cons.IH)
  next
    case (Some level)
    show ?thesis
      using Some by (simp add: Let_def Cons.IH del: fun_upd_apply)
  qed
qed

text \<open>
  The invariant of the loop: alerts of one class in the trace lie at least the cooldown
  apart, in the order of emission, and the dictionary holds, for every class in the
  trace, a time no earlier than any alert of that class.
\<close>

lemma check_proximity_loop_inv:
  assumes "sorted_wrt (\<lambda>a b. det_class (alert_det a) = det_class (alert_det b)
             \<longrightarrow> alert_cooldown \<le> alert_time b - alert_time a) tr"
    and "\<forall>a \<in> set tr. \<exists>t. lat (det_class (alert_det a)) = Some t \<and> alert_time a \<le> t"
  shows "sorted_wrt (\<lambda>a b. det_class (alert_det a) = det_class (alert_det b)
             \<longrightarrow> alert_cooldown \<le> alert_time b - alert_time a)
           (snd (check_proximity_loop now ds (lat, tr)))
         \<and> (\<forall>a \<in> set (snd (check_proximity_loop now ds (lat, tr))).
               \<exists>t. fst (check_proximity_loop now ds (lat, tr)) (det_class (alert_det a)) = Some t
                 \<and> alert_time a \<le> t)"
  using assms
proof (induction ds arbitrary: lat tr)
  case Nil
  then show ?case by simp
next
  case (Cons d ds)
  show ?case
  proof (cases "alert_level_of d")
    case None
    then show ?thesis using Cons.IH [OF Cons.prems] by simp
  next
    case (Some level)
    let ?c = "det_class d"
    let ?last = "case lat ?c of None \<Rightarrow> 0 | Some t \<Rightarrow> t"
    show ?thesis
    proof (cases "now - ?last < alert_cooldown")
      case True
      then show ?thesis using Some Cons.IH [OF Cons.prems] by (simp add: Let_def)
    next
      case False
      let ?new = "\<lparr> alert_time = now, alert_det = d, alert_level = level \<rparr>"
      let ?lat = "lat(?c \<mapsto> now)"
      have cd: "0 < alert_cooldown" by (simp add: alert_cooldown_def)
      have old: "alert_cooldown \<le> now - alert_time a \<and> alert_time a \<le> now"
        if mem: "a \<in> set tr" and same: "det_class (alert_det a) = ?c" for a
      proof -
        have "\<exists>t. lat (det_class (alert_det a)) = Some t \<and> alert_time a \<le> t"
          using Cons.prems(2) mem by blast
        then obtain t where t: "lat ?c = Some t" "alert_time a \<le> t"
          using same by auto
        then have "alert_cooldown \<le> now - t" using False by simp
        then show ?thesis using t(2) cd by linarith
      qed
      have s: "sorted_wrt (\<lambda>a b. det_class (alert_det a) = det_class (alert_det b)
                 \<longrightarrow> alert_cooldown \<le> alert_time b - alert_time a) (tr @ [?new])"
        using Cons.prems(1) old by (simp add: sorted_wrt_append)
      have l: "\<forall>a \<in> set (tr @ [?new]).
                 \<exists>t. ?lat (det_class (alert_det a)) = Some t \<and> alert_time a \<le> t"
        using Cons.prems(2) old by auto
      have "sorted_wrt (\<lambda>a b. det_class (alert_det a) = det_class (alert_det b)
               \<longrightarrow> alert_cooldown \<le> alert_time b - alert_time a)
             (snd (check_proximity_loop now ds (?lat, tr @ [?new])))
           \<and> (\<forall>a \<in> set (snd (check_proximity_loop now ds (?lat, tr @ [?new]))).
                 \<exists>t. fst (check_proximity_loop now ds (?lat, tr @ [?new]))
                        (det_class (alert_det a)) = Some t
                   \<and> alert_time a \<le> t)"
        using s l by (rule Cons.IH)
      then show ?thesis
        using Some False by (simp add: Let_def del: fun_upd_apply)
    qed
  qed
qed

lemma check_proximity_calls_inv:
  assumes "sorted_wrt (\<lambda>a b. det_class (alert_det a) = det_class (alert_det b)
             \<longrightarrow> alert_cooldown \<le> alert_time b - alert_time a) tr"
    and "\<forall>a \<in> set tr. \<exists>t. last_alert_time s (det_class (alert_det a)) = Some t \<and> alert_time a \<le> t"
  shows "sorted_wrt (\<lambda>a b. det_class (alert_det a) = det_class (alert_det b)
             \<longrightarrow> alert_cooldown \<le> alert_time b - alert_time a)
           (snd (check_proximity_calls calls (s, tr)))"
  using assms
proof (induction calls arbitrary: s tr)
  case Nil
  then show ?case by simp
next
  case (Cons call calls)
  obtain now ds where call: "call = (now, ds)" by (cases call)
  let ?r = "check_proximity_loop now ds (last_alert_time s, tr)"
  have step: "check_proximity_calls (call # calls) (s, tr) =
          check_proximity_calls calls (s\<lparr>last_alert_time := fst ?r\<rparr>, snd ?r)"
    using check_proximity_loop_append [of now ds "last_alert_time s" tr "[]"]
    by (simp add: call check_proximity_def split: prod.splits)
  have inv: "sorted_wrt (\<lambda>a b. det_class (alert_det a) = det_class (alert_det b)
             \<longrightarrow> alert_cooldown \<le> alert_time b - alert_time a) (snd ?r)
         \<and> (\<forall>a \<in> set (snd ?r).
               \<exists>t. fst ?r (det_class (alert_det a)) = Some t \<and> alert_time a \<le> t)"
    using Cons.prems by (rule check_proximity_loop_inv)
  show ?case
    unfolding step by (rule Cons.IH) (use inv in simp_all)
qed

lemma alerts_of_calls_spaced:
  "sorted_wrt (\<lambda>a b. det_class (alert_det a) = det_class (alert_det b)
             \<longrightarrow> alert_cooldown \<le> alert_time b - alert_time a) (alerts_of_calls calls)"
  unfolding alerts_of_calls_def by (rule check_proximity_calls_inv) simp_all

lemma check_proximity_loop_suppressed:
  assumes "lat c = Some t0" and "now - t0 < alert_cooldown"
    and "\<forall>a \<in> set emitted. det_class (alert_det a) \<noteq> c"
  shows "fst (check_proximity_loop now ds (lat, emitted)) c = Some t0
         \<and> (\<forall>a \<in> set (snd (check_proximity_loop now ds (lat, emitted))).
               det_class (alert_det a) \<noteq> c)"
  using assms
proof (induction ds arbitrary: lat emitted)
  case Nil
  then show ?case by simp
next
  case (Cons d ds)
  show ?case
  proof (cases "alert_level_of d")
    case None
    then show ?thesis using Cons.IH [of lat emitted] Cons.prems by simp
  next
    case (Some level)
    show ?thesis
    proof (cases "now - (case lat (det_class d) of None \<Rightarrow> 0 | Some t \<Rightarrow> t) < alert_cooldown")
      case True
      then show ?thesis using Some Cons.IH [of lat emitted] Cons.prems by (simp add: Let_def)
    next
      case False
      then have ne: "det_class d \<noteq> c" using Cons.prems(1,2) by auto
      let ?new = "\<lparr> alert_time = now, alert_det = d, alert_level = level \<rparr>"
      let ?lat = "lat(det_class d \<mapsto> now)"
      have a: "?lat c = Some t0" using ne Cons.prems(1) by simp
      have b: "\<forall>a \<in> set (emitted @ [?new]). det_class (alert_det a) \<noteq> c"
        using ne Cons.prems(3) by simp
      have "fst (check_proximity_loop now ds (?lat, emitted @ [?new])) c = Some t0
         \<and> (\<forall>a \<in> set (snd (check_proximity_loop now ds (?lat, emitted @ [?new]))).
               det_class (alert_det a) \<noteq> c)"
        using a Cons.prems(2) b by (rule Cons.IH)
      then show ?thesis
        using Some False by (simp add: Let_def del: fun_upd_apply)
    qed
  qed
qed

text \<open>
  Claim C5. In every sequence of calls to \<open>check_proximity\<close> whose clock readings do
  not decrease, starting from a new \<open>ProximityAlertSystem\<close>, any two alerts for the same
  class are at least 3 seconds apart; and a call made less than 3 seconds after the time
  recorded for a class emits no alert for that class.
\<close>

theorem C5_alert_cooldown:
  assumes "sorted (map fst calls)"
  shows "(\<forall>i j. i < j \<and> j < length (alerts_of_calls calls)
            \<and> det_class (alert_det (alerts_of_calls calls ! i))
                = det_class (alert_det (alerts_of_calls calls ! j))
          \<longrightarrow> 3.0 \<le> alert_time (alerts_of_calls calls ! j)
                      - alert_time (alerts_of_calls calls ! i))
         \<and> (\<forall>s now ds c t0. last_alert_time s c = Some t0 \<and> now - t0 < 3.0
              \<longrightarrow> (\<forall>a \<in> set (snd (check_proximity now ds s)). det_class (alert_det a) \<noteq> c))"
proof (intro conjI allI impI)
  fix i j
  assume h: "i < j \<and> j < length (alerts_of_calls calls)
            \<and> det_class (alert_det (alerts_of_calls calls ! i))
                = det_class (alert_det (alerts_of_calls calls ! j))"
  have "alert_cooldown \<le> alert_time (alerts_of_calls calls ! j)
                      - alert_time (alerts_of_calls calls ! i)"
    using alerts_of_calls_spaced [of calls] h by (simp add: sorted_wrt_iff_nth_less)
  then show "3.0 \<le> alert_time (alerts_of_calls calls ! j)
                      - alert_time (alerts_of_calls calls ! i)"
    by (simp add: alert_cooldown_def)
next
  fix s :: ProximityAlertSystem and now ds c t0
  assume h: "last_alert_time s c = Some t0 \<and> now - t0 < 3.0"
  then have "\<forall>a \<in> set (snd (check_proximity_loop now ds (last_alert_time s, []))).
               det_class (alert_det a) \<noteq> c"
    using check_proximity_loop_suppressed [of "last_alert_time s" c t0 now "[]" ds]
    by (simp add: alert_cooldown_def)
  then show "\<forall>a \<in> set (snd (check_proximity now ds s)). det_class (alert_det a) \<noteq> c"
    by (simp add: check_proximity_def split: prod.splits)
qed

lemma alerts_of_example_calls:
  "alerts_of_calls example_calls =
     [\<lparr> alert_time = 100, alert_det = example_det ''person'' 0.5 ''frente'',
        alert_level = ''critical'' \<rparr>,
      \<lparr> alert_time = 101, alert_det = example_det ''dog'' 1.5 ''derecha'',
        alert_level = ''warning'' \<rparr>,
      \<lparr> alert_time = 103, alert_det = example_det ''person'' 0.8 ''frente'',
        alert_level = ''critical'' \<rparr>]"
  by (simp add: alerts_of_calls_def example_calls_def check_proximity_def
      ProximityAlertSystem_init_def alert_level_of_def alert_distances_def
      alert_cooldown_def example_det_def Let_def)

text \<open>
  Three calls at 100, 101 and 103 seconds: the person alerts at 100 and again at 103, not at
  101; the second person of the first call is suppressed too.
\<close>

theorem C5_witness:
  "sorted (map fst example_calls)
   \<and> map (\<lambda>a. (alert_time a, det_class (alert_det a), alert_level a)) (alerts_of_calls example_calls)
     = [(100, ''person'', ''critical''), (101, ''dog'', ''warning''), (103, ''person'', ''critical'')]
   \<and> 3.0 \<le> alert_time (alerts_of_calls example_calls ! 2)
             - alert_time (alerts_of_calls example_calls ! 0)
   \<and> ''person'' \<notin> set (map (\<lambda>a. det_class (alert_det a)) (snd (check_proximity 101
            [example_det ''person'' 0.5 ''frente'', example_det ''dog'' 1.5 ''derecha'']
            \<lparr> last_alert_time = [''person'' \<mapsto> 100] \<rparr>)))"
proof -
  have s: "sorted (map fst example_calls)" by (simp add: example_calls_def)
  have p: "last_alert_time \<lparr> last_alert_time = [''person'' \<mapsto> 100] \<rparr> ''person'' = Some 100
             \<and> (101::real) - 100 < 3.0"
    by simp
  have q: "\<forall>a \<in> set (snd (check_proximity 101
            [example_det ''person'' 0.5 ''frente'', example_det ''dog'' 1.5 ''derecha'']
            \<lparr> last_alert_time = [''person'' \<mapsto> 100] \<rparr>)).
          det_class (alert_det a) \<noteq> ''person''"
    using C5_alert_cooldown [OF s] p by blast
  then have q': "''person'' \<notin> set (map (\<lambda>a. det_class (alert_det a)) (snd (check_proximity 101
            [example_det ''person'' 0.5 ''frente'', example_det ''dog'' 1.5 ''derecha'']
            \<lparr> last_alert_time = [''person'' \<mapsto> 100] \<rparr>)))"
    by auto
  have m: "map (\<lambda>a. (alert_time a, det_class (alert_det a), alert_level a))
             (alerts_of_calls example_calls)
     = [(100, ''person'', ''critical''), (101, ''dog'', ''warning''), (103, ''person'', ''critical'')]"
    by (simp add: alerts_of_example_calls example_det_def)
  have h: "(0::nat) < 2 \<and> 2 < length (alerts_of_calls example_calls)
            \<and> det_class (alert_det (alerts_of_calls example_calls ! 0))
                = det_class (alert_det (alerts_of_calls example_calls ! 2))"
    by (simp add: alerts_of_example_calls example_det_def)
  have "\<forall>i j. i < j \<and> j < length (alerts_of_calls example_calls)
            \<and> det_class (alert_det (alerts_of_calls example_calls ! i))
                = det_class (alert_det (alerts_of_calls example_calls ! j))
          \<longrightarrow> 3.0 \<le> alert_time (alerts_of_calls example_calls ! j)
                      - alert_time (alerts_of_calls example_calls ! i)"
    using C5_alert_cooldown [OF s] by (rule conjunct1)
  then have "3.0 \<le> alert_time (alerts_of_calls example_calls ! 2)
             - alert_time (alerts_of_calls example_calls ! 0)"
    using h by blast
  then show ?thesis using s m q' by blast
qed

section \<open>Properties of the descriptions\<close>

text \<open>
  Claim C6. \<open>AdaptiveLanguageProcessor.generate_description\<close>: when some detection is
  nearer than the danger threshold of 2.0 m, a description is generated whatever the time
  of the last one, and the time of the last description becomes the current time.
  Otherwise a description is generated (and the time set) exactly when the time since
  the last description is at least the configured minimum interval; when it is less, the
  call returns \<open>None\<close> and leaves the time as it was. The default interval is 2 seconds.
\<close>

theorem C6_description_throttle:
  "((\<exists>d \<in> set detections. distance d < 2.0) \<longrightarrow>
      adaptive_generate_description cfg current_time post detections s =
        (Some (generate_description post detections),
         s\<lparr>last_description_time := current_time\<rparr>))
   \<and> (\<not> (\<exists>d \<in> set detections. distance d < 2.0)
        \<and> current_time - last_description_time s \<ge> min_time_between_descriptions cfg \<longrightarrow>
      adaptive_generate_description cfg current_time post detections s =
        (Some (generate_description post detections),
         s\<lparr>last_description_time := current_time\<rparr>))
   \<and> (\<not> (\<exists>d \<in> set detections. distance d < 2.0)
        \<and> current_time - last_description_time s < min_time_between_descriptions cfg \<longrightarrow>
      adaptive_generate_description cfg current_time post detections s = (None, s))
   \<and> min_time_between_descriptions default_PerformanceConfig = 2"
  by (simp add: adaptive_generate_description_def danger_threshold_def list_ex_iff
      default_PerformanceConfig_def Let_def)

text \<open>
  One second after a description: a person at 1.5 m is described at once; a person at
  2.5 m is not, and is described after two seconds.
\<close>

theorem C6_witness:
  "adaptive_generate_description default_PerformanceConfig 101 Timeout
      [example_det ''person'' 1.5 ''frente''] \<lparr> last_description_time = 100 \<rparr>
     = (Some ''persona cerca frente a ti'', \<lparr> last_description_time = 101 \<rparr>)
   \<and> adaptive_generate_description default_PerformanceConfig 102 Timeout
      [example_det ''person'' 2.5 ''derecha''] \<lparr> last_description_time = 100 \<rparr>
     = (Some ''persona cerca a tu derecha'', \<lparr> last_description_time = 102 \<rparr>)
   \<and> adaptive_generate_description default_PerformanceConfig 101 Timeout
      [example_det ''person'' 2.5 ''derecha''] \<lparr> last_description_time = 100 \<rparr>
     = (None, \<lparr> last_description_time = 100 \<rparr>)"
proof -
  let ?s = "\<lparr> last_description_time = 100 \<rparr>"
  have g1: "generate_description Timeout [example_det ''person'' 1.5 ''frente'']
              = ''persona cerca frente a ti''"
    by (simp add: generate_description_def fallback_description_def translate_class_def
        class_translations_def urgencia_def example_det_def Let_def)
  have g2: "generate_description Timeout [example_det ''person'' 2.5 ''derecha'']
              = ''persona cerca a tu derecha''"
    by (simp add: generate_description_def fallback_description_def translate_class_def
        class_translations_def urgencia_def example_det_def Let_def)
  have a: "\<exists>d \<in> set [example_det ''person'' 1.5 ''frente'']. distance d < 2.0"
    by (simp add: example_det_def)
  have b: "\<not> (\<exists>d \<in> set [example_det ''person'' 2.5 ''derecha'']. distance d < 2.0)"
    by (simp add: example_det_def)
  have c: "102 - last_description_time ?s \<ge> min_time_between_descriptions default_PerformanceConfig"
    by (simp add: default_PerformanceConfig_def)
  have d: "101 - last_description_time ?s < min_time_between_descriptions default_PerformanceConfig"
    by (simp add: default_PerformanceConfig_def)
  have r1: "adaptive_generate_description default_PerformanceConfig 101 Timeout
      [example_det ''person'' 1.5 ''frente''] ?s
     = (Some (generate_description Timeout [example_det ''person'' 1.5 ''frente'']),
        ?s\<lparr>last_description_time := 101\<rparr>)"
    using a C6_description_throttle [of "[example_det ''person'' 1.5 ''frente'']"
        default_PerformanceConfig 101 Timeout ?s] by blast
  have r2: "adaptive_generate_description default_PerformanceConfig 102 Timeout
      [example_det ''person'' 2.5 ''derecha''] ?s
     = (Some (generate_description Timeout [example_det ''person'' 2.5 ''derecha'']),
        ?s\<lparr>last_description_time := 102\<rparr>)"
    using b c C6_description_throttle [of "[example_det ''person'' 2.5 ''derecha'']"
        default_PerformanceConfig 102 Timeout ?s] by blast
  have r3: "adaptive_generate_description default_PerformanceConfig 101 Timeout
      [example_det ''person'' 2.5 ''derecha''] ?s = (None, ?s)"
    using b d C6_description_throttle [of "[example_det ''person'' 2.5 ''derecha'']"
        default_PerformanceConfig 101 Timeout ?s] by blast
  show ?thesis using r1 r2 r3 g1 g2 by simp
qed

lemma generate_description_failed:
  assumes "call_failed post"
  shows "generate_description post (obj # rest) = fallback_description (obj # rest)"
  using assms
  by (cases post) (simp_all add: generate_description_def call_failed_def)

text \<open>
  Claim C7, as amended. For a non-empty list of detections, when the external call raises,
  times out or answers with a status other than 200, \<open>generate_description\<close> returns
  the fallback sentence for the first detection, which is not empty: the translated name
  of the object, then \<open>muy cerca\<close> when it is nearer than 1.5 m, \<open>cerca\<close> when it is
  nearer than 3 m, and no word for the distance when it is at 3 m or more, then the
  direction. The failure is an input of the model and the result is a string: no
  exception leaves the function. (As stated, with a distance word for every detection,
  the claim fails.)
\<close>

theorem C7_fallback_on_failure:
  assumes "call_failed post"
  shows "generate_description post (obj # rest) =
           translate_class (det_class obj) @ '' '' @ urgencia (distance obj)
             @ (if position obj = ''frente'' then '' frente a ti'' else '' a tu '' @ position obj)
         \<and> generate_description post (obj # rest) \<noteq> []
         \<and> (distance obj < 1.5 \<longrightarrow> urgencia (distance obj) = ''muy cerca'')
         \<and> (1.5 \<le> distance obj \<and> distance obj < 3 \<longrightarrow> urgencia (distance obj) = ''cerca'')
         \<and> (3 \<le> distance obj \<longrightarrow> urgencia (distance obj) = [])"
  using generate_description_failed [OF assms, of obj rest]
  by (simp add: fallback_description_def urgencia_def Let_def)

text \<open>
  A status 500 with a truck at 1 m on the left.
\<close>

theorem C7_witness:
  "call_failed (Response 500 Json_error)
   \<and> generate_description (Response 500 Json_error)
        [example_det ''truck'' 1.0 ''izquierda'', example_det ''person'' 2.0 ''frente'']
       = ''cami'' @ [char_of (0xF3::nat)] @ ''n muy cerca a tu izquierda''"
proof -
  have f: "call_failed (Response 500 Json_error)" by (simp add: call_failed_def)
  have "generate_description (Response 500 Json_error)
        [example_det ''truck'' 1.0 ''izquierda'', example_det ''person'' 2.0 ''frente'']
       = translate_class (det_class (example_det ''truck'' 1.0 ''izquierda'')) @ '' ''
           @ urgencia (distance (example_det ''truck'' 1.0 ''izquierda''))
           @ (if position (example_det ''truck'' 1.0 ''izquierda'') = ''frente''
              then '' frente a ti''
              else '' a tu '' @ position (example_det ''truck'' 1.0 ''izquierda''))"
    using C7_fallback_on_failure [OF f] by (rule conjunct1)
  then show ?thesis using f
    by (simp add: translate_class_def class_translations_def urgencia_def example_det_def)
qed

text \<open>
  A person at 3.5 m ahead, with a timeout: the sentence has the name and the direction, and
  two spaces where the word for the distance would be.
\<close>

theorem C7_counterexample:
  "generate_description Timeout [example_det ''person'' 3.5 ''frente'']
     = ''persona  frente a ti''
   \<and> urgencia (distance (example_det ''person'' 3.5 ''frente'')) = []
   \<and> \<not> sublist ''cerca'' (generate_description Timeout [example_det ''person'' 3.5 ''frente''])"
proof -
  have g: "generate_description Timeout [example_det ''person'' 3.5 ''frente'']
             = ''persona  frente a ti''"
    by (simp add: generate_description_def fallback_description_def translate_class_def
        class_translations_def urgencia_def example_det_def Let_def)
  have u: "urgencia (distance (example_det ''person'' 3.5 ''frente'')) = []"
    by (simp add: urgencia_def example_det_def)
  have n: "\<not> sublist ''cerca'' ''persona  frente a ti''"
    by code_simp
  show ?thesis using g u n by simp
qed

section \<open>Properties of the power modes\<close>

lemma current_mode_switch_mode: "current_mode (switch_mode m s) = m"
  by (simp add: switch_mode_def)

lemma current_mode_update:
  "current_mode (update_battery_status level charging s) = mode_for level charging"
  by (simp add: update_battery_status_def mode_for_def thresholds_def Let_def
      current_mode_switch_mode)

lemma mode_for_mono:
  assumes "l1 \<le> l2"
  shows "consumption (mode_for l1 False) \<le> consumption (mode_for l2 False)"
    and "fps_processing (POWER_PROFILES (mode_for l1 False))
           \<le> fps_processing (POWER_PROFILES (mode_for l2 False))"
  using assms by (simp_all add: mode_for_def)

text \<open>
  Claim C8. The mode that \<open>update_battery_status\<close> leaves in \<open>current_mode\<close> is a
  function of the level and the charging flag alone: \<open>PERFORMANCE\<close> when charging;
  otherwise \<open>ULTRA_SAVER\<close> up to 10, \<open>POWER_SAVER\<close> above 10 and up to 20,
  \<open>BALANCED\<close> above 20 and up to 50, \<open>PERFORMANCE\<close> above 50. When not charging, a
  lower level never selects a mode that draws more power (by the consumption table, and
  by the frames per second of the profile).
\<close>

theorem C8_power_mode_selection:
  "current_mode (update_battery_status level charging s) = mode_for level charging
   \<and> current_mode (update_battery_status level True s) = PERFORMANCE
   \<and> (level \<le> 10 \<longrightarrow> current_mode (update_battery_status level False s) = ULTRA_SAVER)
   \<and> (10 < level \<and> level \<le> 20 \<longrightarrow>
        current_mode (update_battery_status level False s) = POWER_SAVER)
   \<and> (20 < level \<and> level \<le> 50 \<longrightarrow>
        current_mode (update_battery_status level False s) = BALANCED)
   \<and> (50 < level \<longrightarrow> current_mode (update_battery_status level False s) = PERFORMANCE)
   \<and> (l1 \<le> l2 \<longrightarrow>
        consumption (current_mode (update_battery_status l1 False s1))
          \<le> consumption (current_mode (update_battery_status l2 False s2))
        \<and> fps_processing (get_current_profile (update_battery_status l1 False s1))
          \<le> fps_processing (get_current_profile (update_battery_status l2 False s2)))"
  using mode_for_mono [of l1 l2]
  by (simp add: current_mode_update get_current_profile_def) (simp add: mode_for_def)

text \<open>
  The modes at the thresholds and next to them.
\<close>

theorem C8_witness:
  "(15::int) \<le> 60
   \<and> map (\<lambda>l. current_mode (update_battery_status l False BatteryOptimizer_init))
        [5, 10, 11, 20, 21, 50, 51, 100]
       = [ULTRA_SAVER, ULTRA_SAVER, POWER_SAVER, POWER_SAVER, BALANCED, BALANCED,
          PERFORMANCE, PERFORMANCE]
   \<and> current_mode (update_battery_status 5 True BatteryOptimizer_init) = PERFORMANCE
   \<and> consumption (current_mode (update_battery_status 15 False BatteryOptimizer_init))
       \<le> consumption (current_mode (update_battery_status 60 False BatteryOptimizer_init))"
proof -
  have le: "(15::int) \<le> 60" by simp
  have m: "map (\<lambda>l. current_mode (update_battery_status l False BatteryOptimizer_init))
        [5, 10, 11, 20, 21, 50, 51, 100]
       = [ULTRA_SAVER, ULTRA_SAVER, POWER_SAVER, POWER_SAVER, BALANCED, BALANCED,
          PERFORMANCE, PERFORMANCE]"
    by (simp add: update_battery_status_def switch_mode_def thresholds_def
        BatteryOptimizer_init_def Let_def)
  have c: "current_mode (update_battery_status 5 True BatteryOptimizer_init) = PERFORMANCE"
    using C8_power_mode_selection [of 5 True BatteryOptimizer_init] by blast
  have k: "consumption (current_mode (update_battery_status 15 False BatteryOptimizer_init))
       \<le> consumption (current_mode (update_battery_status 60 False BatteryOptimizer_init))"
    using le C8_power_mode_selection [of 5 True BatteryOptimizer_init 15 60
        BatteryOptimizer_init BatteryOptimizer_init] by blast
  show ?thesis using le m c k by blast
qed

section \<open>Properties of the frame queue\<close>

text \<open>
  With a positive \<open>maxsize\<close>, the frames in the queue together with the frame tested for
  and not yet put never exceed it.
\<close>

lemma step_bounded:
  assumes "0 < maxsize (frame_queue s)"
    and "int (length (items (frame_queue s))) + (if pending s = None then 0 else 1)
           \<le> maxsize (frame_queue s)"
  shows "maxsize (frame_queue (step e s)) = maxsize (frame_queue s)
         \<and> int (length (items (frame_queue (step e s))))
             + (if pending (step e s) = None then 0 else 1)
           \<le> maxsize (frame_queue s)"
proof (cases e)
  case (Capture_check frame)
  then show ?thesis using assms
    by (auto simp: Queue_full_def split: option.splits)
next
  case Capture_put
  then show ?thesis using assms
    by (auto simp: Queue_put_def Queue_full_def split: option.splits if_splits)
next
  case Consumer_read
  then show ?thesis using assms
    by (auto simp: read_def Queue_empty_def Queue_get_def split: list.splits)
qed

lemma run_bounded:
  assumes "0 < maxsize (frame_queue s)"
    and "int (length (items (frame_queue s))) + (if pending s = None then 0 else 1)
           \<le> maxsize (frame_queue s)"
  shows "int (length (items (frame_queue (run es s)))) \<le> maxsize (frame_queue s)"
  using assms
proof (induction es arbitrary: s)
  case Nil
  then show ?case by (simp split: if_splits)
next
  case (Cons e es)
  have st: "maxsize (frame_queue (step e s)) = maxsize (frame_queue s)
         \<and> int (length (items (frame_queue (step e s))))
             + (if pending (step e s) = None then 0 else 1)
           \<le> maxsize (frame_queue s)"
    using Cons.prems by (rule step_bounded)
  have "int (length (items (frame_queue (run es (step e s)))))
          \<le> maxsize (frame_queue (step e s))"
    by (rule Cons.IH) (use st Cons.prems(1) in simp_all)
  then show ?case using st by simp
qed

lemma capture_when_full:
  assumes "Queue_full (frame_queue s)"
  shows "step (Capture_check frame) s = s" and "capture_frame frame s = s"
  using assms
  by (simp_all add: capture_frame_def Queue_put_def split: option.splits)

lemma capture_keeps_queue:
  "prefix (items (frame_queue s)) (items (frame_queue (step (Capture_check frame) s)))"
  "prefix (items (frame_queue s)) (items (frame_queue (step Capture_put s)))"
  by (simp_all add: Queue_put_def split: option.splits)

text \<open>
  Claim C9, as amended. For a positive \<open>frame_buffer_size\<close>, whatever the interleaving
  of the capture thread and the consumer, the queue never holds more than
  \<open>frame_buffer_size\<close> frames. In any state: when the queue is full the capture thread's
  test drops the new frame and changes nothing (so does the whole pass of the loop); a put
  changes the queue only when it is not full; and neither step of the capture thread
  removes or alters a frame already in the queue, the old contents staying as a prefix.
  (As stated, for every configured size, the claim fails: a size of zero or less gives
  an unbounded queue.)
\<close>

theorem C9_frame_queue_bounded:
  fixes events :: "'f event list" and s :: "'f CameraHandler"
  assumes "0 < frame_buffer_size cfg"
  shows "int (length (items (frame_queue (run events (CameraHandler_init cfg)))))
           \<le> frame_buffer_size cfg
         \<and> (Queue_full (frame_queue s) \<longrightarrow>
              step (Capture_check frame) s = s \<and> capture_frame frame s = s)
         \<and> (items (frame_queue (step Capture_put s)) \<noteq> items (frame_queue s) \<longrightarrow>
              \<not> Queue_full (frame_queue s))
         \<and> prefix (items (frame_queue s)) (items (frame_queue (step (Capture_check frame) s)))
         \<and> prefix (items (frame_queue s)) (items (frame_queue (step Capture_put s)))"
proof -
  let ?init = "CameraHandler_init cfg :: 'f CameraHandler"
  have "int (length (items (frame_queue (run events ?init))))
           \<le> maxsize (frame_queue ?init)"
    by (rule run_bounded) (use assms in \<open>simp_all add: CameraHandler_init_def Queue_init_def\<close>)
  then have a: "int (length (items (frame_queue (run events (CameraHandler_init cfg)))))
           \<le> frame_buffer_size cfg"
    by (simp add: CameraHandler_init_def Queue_init_def)
  have b: "items (frame_queue (step Capture_put s)) \<noteq> items (frame_queue s) \<longrightarrow>
              \<not> Queue_full (frame_queue s)"
    by (simp add: Queue_put_def split: option.splits)
  show ?thesis
    using a b capture_when_full [of s frame] capture_keeps_queue(1) [of s frame]
      capture_keeps_queue(2) [of s]
    by blast
qed

text \<open>
  A buffer of two frames: the third frame is dropped, and after one read the fourth is
  queued behind the second.
\<close>

theorem C9_witness:
  "0 < frame_buffer_size \<lparr> frame_buffer_size = 2 \<rparr>
   \<and> items (frame_queue (run [Capture_check (1::nat), Capture_put, Capture_check 2, Capture_put,
              Capture_check 3, Capture_put]
            (CameraHandler_init \<lparr> frame_buffer_size = 2 \<rparr>))) = [1, 2]
   \<and> items (frame_queue (run [Capture_check (1::nat), Capture_put, Capture_check 2, Capture_put,
              Capture_check 3, Capture_put, Consumer_read, Capture_check 4, Capture_put]
            (CameraHandler_init \<lparr> frame_buffer_size = 2 \<rparr>))) = [2, 4]
   \<and> int (length (items (frame_queue (run [Capture_check (1::nat), Capture_put, Capture_check 2,
              Capture_put, Capture_check 3, Capture_put]
            (CameraHandler_init \<lparr> frame_buffer_size = 2 \<rparr>)))))
       \<le> frame_buffer_size \<lparr> frame_buffer_size = 2 \<rparr>"
proof -
  have p: "0 < frame_buffer_size \<lparr> frame_buffer_size = 2 \<rparr>" by simp
  have r1: "items (frame_queue (run [Capture_check (1::nat), Capture_put, Capture_check 2,
              Capture_put, Capture_check 3, Capture_put]
            (CameraHandler_init \<lparr> frame_buffer_size = 2 \<rparr>))) = [1, 2]"
    by (simp add: CameraHandler_init_def Queue_init_def Queue_full_def Queue_put_def)
  have r2: "items (frame_queue (run [Capture_check (1::nat), Capture_put, Capture_check 2,
              Capture_put, Capture_check 3, Capture_put, Consumer_read, Capture_check 4,
              Capture_put]
            (CameraHandler_init \<lparr> frame_buffer_size = 2 \<rparr>))) = [2, 4]"
    by (simp add: CameraHandler_init_def Queue_init_def Queue_full_def Queue_put_def
        read_def Queue_empty_def Queue_get_def)
  have r3: "int (length (items (frame_queue (run [Capture_check (1::nat), Capture_put,
              Capture_check 2, Capture_put, Capture_check 3, Capture_put]
            (CameraHandler_init \<lparr> frame_buffer_size = 2 \<rparr>)))))
       \<le> frame_buffer_size \<lparr> frame_buffer_size = 2 \<rparr>"
    using C9_frame_queue_bounded [OF p] by (rule conjunct1)
  show ?thesis using p r1 r2 r3 by blast
qed

text \<open>
  With \<open>frame_buffer_size = 0\<close> the queue is never full, and after two frames its length
  exceeds the configured size.
\<close>

theorem C9_counterexample:
  "frame_buffer_size \<lparr> frame_buffer_size = 0 \<rparr> = 0
   \<and> items (frame_queue (run [Capture_check (1::nat), Capture_put, Capture_check 2, Capture_put]
            (CameraHandler_init \<lparr> frame_buffer_size = 0 \<rparr>))) = [1, 2]
   \<and> \<not> int (length (items (frame_queue (run [Capture_check (1::nat), Capture_put,
              Capture_check 2, Capture_put]
            (CameraHandler_init \<lparr> frame_buffer_size = 0 \<rparr>)))))
         \<le> frame_buffer_size \<lparr> frame_buffer_size = 0 \<rparr>"
  by (simp add: CameraHandler_init_def Queue_init_def Queue_full_def Queue_put_def)

section \<open>Properties of the distance estimate\<close>

lemma estimate_distance_values:
  assumes "estimate_distance numpy_box box shape = Inr d"
  shows "d \<in> {1.0, 1.5, 2.5, 4.0, 6.0}"
proof -
  obtain x1 y1 x2 y2 where b: "box = (x1, y1, x2, y2)" by (cases box) auto
  obtain height width channels where s: "shape = (height, width, channels)"
    by (cases shape) auto
  show ?thesis
    using assms unfolding b s
    by (auto simp: Let_def split: if_splits)
qed

lemma estimate_distance_returns:
  assumes "numpy_box \<or> fst (snd shape) \<noteq> 0"
  shows "\<exists>d. estimate_distance numpy_box box shape = Inr d"
proof -
  obtain x1 y1 x2 y2 where b: "box = (x1, y1, x2, y2)" by (cases box) auto
  obtain height width channels where s: "shape = (height, width, channels)"
    by (cases shape) auto
  let ?size = "max (x2 - x1) (y2 - y1)"
  let ?ratio = "?size / real width"
  have "estimate_distance numpy_box (x1, y1, x2, y2) (height, width, channels) =
          Inr (if width = 0 then (if ?size > 0 then 1.0 else 6.0)
               else if ?ratio > 0.5 then 1.0
               else if ?ratio > 0.3 then 1.5
               else if ?ratio > 0.2 then 2.5
               else if ?ratio > 0.1 then 4.0
               else 6.0)"
    using assms unfolding b s by (auto simp: Let_def)
  then show ?thesis unfolding b s by blast
qed

lemma estimate_distance_examples:
  "estimate_distance numpy_box (0, 0, 60, 10) (100, 100, 3) = Inr 1.0"
  "estimate_distance numpy_box (0, 0, 40, 10) (100, 100, 3) = Inr 1.5"
  "estimate_distance numpy_box (0, 0, 25, 10) (100, 100, 3) = Inr 2.5"
  "estimate_distance numpy_box (0, 0, 15, 10) (100, 100, 3) = Inr 4.0"
  "estimate_distance numpy_box (0, 0, 5, 5) (100, 100, 3) = Inr 6.0"
  by (simp_all add: Let_def)

text \<open>
  Claim C10. Whenever \<open>estimate_distance\<close> returns, its value is one of 1.0, 1.5, 2.5,
  4.0 and 6.0, so never below 1.0, and a detection with that distance is never
  \<open>critical\<close>. It returns for every box and frame shape when the box holds numpy
  floats, as in \<open>ObjectDetector.detect\<close>, and for every shape of non-zero width
  otherwise. Each of the five values is returned for some input.
\<close>

theorem C10_estimate_distance_never_critical:
  "(estimate_distance numpy_box box shape = Inr d \<longrightarrow>
      d \<in> {1.0, 1.5, 2.5, 4.0, 6.0} \<and> \<not> d < 1.0
      \<and> (distance det = d \<longrightarrow> alert_level_of det \<noteq> Some ''critical''))
   \<and> (numpy_box \<or> fst (snd shape) \<noteq> 0 \<longrightarrow>
        (\<exists>d'. estimate_distance numpy_box box shape = Inr d'))
   \<and> (\<forall>v \<in> {1.0, 1.5, 2.5, 4.0, 6.0}.
        \<exists>box' shape'. estimate_distance numpy_box box' shape' = Inr v)"
proof (intro conjI impI)
  assume e: "estimate_distance numpy_box box shape = Inr d"
  then show v: "d \<in> {1.0, 1.5, 2.5, 4.0, 6.0}" by (rule estimate_distance_values)
  then show n: "\<not> d < 1.0" by auto
  assume "distance det = d"
  then show "alert_level_of det \<noteq> Some ''critical''"
    using n by (simp add: alert_level_of_def alert_distances_def)
next
  assume "numpy_box \<or> fst (snd shape) \<noteq> 0"
  then show "\<exists>d'. estimate_distance numpy_box box shape = Inr d'"
    by (rule estimate_distance_returns)
next
  show "\<forall>v \<in> {1.0, 1.5, 2.5, 4.0, 6.0}.
        \<exists>box' shape'. estimate_distance numpy_box box' shape' = Inr v"
    using estimate_distance_examples [of numpy_box] by blast
qed

text \<open>
  A box 400 pixels wide in a frame of width 640 is put at 1.0 m, which is a warning
  and not critical.
\<close>

theorem C10_witness:
  "estimate_distance True (100, 50, 500, 400) (480, 640, 3) = Inr 1.0
   \<and> alert_level_of (example_det ''person'' 1.0 ''frente'') = Some ''warning''
   \<and> alert_level_of (example_det ''person'' 1.0 ''frente'') \<noteq> Some ''critical''
   \<and> estimate_distance False (100, 50, 500, 400) (480, 0, 3) = Inl ZeroDivisionError
   \<and> estimate_distance True (100, 50, 500, 400) (480, 0, 3) = Inr 1.0"
proof -
  have e: "estimate_distance True (100, 50, 500, 400) (480, 640, 3) = Inr 1.0"
    by (simp add: Let_def)
  have d: "distance (example_det ''person'' 1.0 ''frente'') = 1.0"
    by (simp add: example_det_def)
  have c: "alert_level_of (example_det ''person'' 1.0 ''frente'') \<noteq> Some ''critical''"
    using e d C10_estimate_distance_never_critical [of True "(100, 50, 500, 400)"
        "(480, 640, 3)" "1.0" "example_det ''person'' 1.0 ''frente''"]
    by blast
  have w: "alert_level_of (example_det ''person'' 1.0 ''frente'') = Some ''warning''"
    by (simp add: alert_level_of_def alert_distances_def example_det_def)
  have z: "estimate_distance False (100, 50, 500, 400) (480, 0, 3) = Inl ZeroDivisionError"
    "estimate_distance True (100, 50, 500, 400) (480, 0, 3) = Inr 1.0"
    by (simp_all add: Let_def)
  show ?thesis using e c w z by blast
qed

end
